theory Spec2Isabelle
  imports Main
begin

section \<open>JavaScript values\<close>

text \<open>
  The link tool of \<^verbatim>\<open>src/index.js\<close> stores and inspects values that come from the host
  editor and from a JSON response body. They are modelled by one datatype of JavaScript
  values. Numbers are restricted to integers (the code only tests them for truthiness),
  strings are lists of characters with code below 256, and an object is an association
  list read with \<open>map_of\<close>: the first binding of a key is the property's value.
\<close>

datatype jsval =
    Undefined
  | Null
  | JBool bool
  | JNum int
  | JStr string
  | JArr "jsval list"
  | JObj "(string \<times> jsval) list"

type_synonym jsobject = "(string \<times> jsval) list"

datatype error = TypeError | NotFoundError

text \<open>ToBoolean: what \<^verbatim>\<open>a || b\<close>, \<^verbatim>\<open>!a\<close> and \<^verbatim>\<open>if (a)\<close> test.\<close>

fun truthy :: "jsval \<Rightarrow> bool" where
  "truthy Undefined = False"
| "truthy Null = False"
| "truthy (JBool b) = b"
| "truthy (JNum n) = (n \<noteq> 0)"
| "truthy (JStr s) = (s \<noteq> [])"
| "truthy (JArr xs) = True"
| "truthy (JObj kvs) = True"

text \<open>\<^verbatim>\<open>a || b\<close>\<close>

definition js_or :: "jsval \<Rightarrow> jsval \<Rightarrow> jsval" where
  "js_or a b = (if truthy a then a else b)"

text \<open>
  Property read \<^verbatim>\<open>o.k\<close> of an object literal or parsed JSON object: an absent property
  reads as \<^verbatim>\<open>undefined\<close>.
\<close>

definition field :: "jsobject \<Rightarrow> string \<Rightarrow> jsval" where
  "field kvs k = (case map_of kvs k of Some v \<Rightarrow> v | None \<Rightarrow> Undefined)"

text \<open>
  Property read \<^verbatim>\<open>v.k\<close> of a value that is neither \<^verbatim>\<open>null\<close> nor \<^verbatim>\<open>undefined\<close>, for the
  property names the tool reads from response and metadata values (\<^verbatim>\<open>success\<close>,
  \<^verbatim>\<open>meta\<close>, \<^verbatim>\<open>image\<close>, \<^verbatim>\<open>url\<close>, \<^verbatim>\<open>title\<close>, \<^verbatim>\<open>description\<close>): numbers, booleans,
  strings and arrays have none of them. The tool also reads \<^verbatim>\<open>link\<close> from a response, but
  only after it has found a truthy \<^verbatim>\<open>success\<close> there, so from an object. Every such read
  in the source is guarded against \<^verbatim>\<open>null\<close> and \<^verbatim>\<open>undefined\<close> receivers.
\<close>

fun get_prop :: "jsval \<Rightarrow> string \<Rightarrow> jsval" where
  "get_prop (JObj kvs) k = field kvs k"
| "get_prop v k = Undefined"

text \<open>
  \<^verbatim>\<open>Object.keys(v).length\<close>; \<^verbatim>\<open>Object.keys\<close> throws a TypeError on \<^verbatim>\<open>null\<close> and
  \<^verbatim>\<open>undefined\<close>, lists the indices of a string or an array and nothing for a number or
  a boolean.
\<close>

fun Object_keys_length :: "jsval \<Rightarrow> error + nat" where
  "Object_keys_length Undefined = Inl TypeError"
| "Object_keys_length Null = Inl TypeError"
| "Object_keys_length (JBool b) = Inr 0"
| "Object_keys_length (JNum n) = Inr 0"
| "Object_keys_length (JStr s) = Inr (length s)"
| "Object_keys_length (JArr xs) = Inr (length xs)"
| "Object_keys_length (JObj kvs) = Inr (length (remdups (map fst kvs)))"

text \<open>
  \<^verbatim>\<open>String.prototype.trim\<close> removes white space and line terminators from both ends.
  Among the characters below 256 these are TAB, LF, VT, FF, CR, SPACE and NBSP.
\<close>

definition is_white_space :: "char \<Rightarrow> bool" where
  "is_white_space c \<longleftrightarrow>
     c \<in> set [CHR 0x09, CHR 0x0A, CHR 0x0B, CHR 0x0C, CHR 0x0D, CHR 0x20, CHR 0xA0]"

definition trim :: "string \<Rightarrow> string" where
  "trim s = rev (dropWhile is_white_space (rev (dropWhile is_white_space s)))"

section \<open>The data model\<close>

text \<open>
  \<^verbatim>\<open>this._data\<close>: the persisted \<^verbatim>\<open>{ link, meta }\<close>. The fields hold whatever the setter
  stored, so they are JavaScript values.
\<close>

record LinkToolData =
  link :: jsval
  meta :: jsval

text \<open>The value the constructor assigns to \<^verbatim>\<open>this._data\<close> before it calls the setter.\<close>

definition initial_data :: LinkToolData where
  "initial_data = \<lparr>link = JStr [], meta = JObj []\<rparr>"

text \<open>
  \<^verbatim>\<open>set data(data)\<close>: each field of the argument replaces the stored one when it is truthy,
  and the stored one is kept otherwise.
\<close>

definition set_data :: "jsobject \<Rightarrow> LinkToolData \<Rightarrow> LinkToolData" where
  "set_data d old =
     \<lparr>link = js_or (field d ''link'') (link old),
      meta = js_or (field d ''meta'') (meta old)\<rparr>"

text \<open>
  \<^verbatim>\<open>validate()\<close> reads \<^verbatim>\<open>this.data.link.trim()\<close>: a stored link that is not a string has
  no \<^verbatim>\<open>trim\<close> method and the call throws a TypeError.
\<close>

definition validate_data :: "LinkToolData \<Rightarrow> error + bool" where
  "validate_data d =
     (case link d of JStr s \<Rightarrow> Inr (trim s \<noteq> []) | _ \<Rightarrow> Inl TypeError)"

section \<open>The block's nodes\<close>

text \<open>
  \<^verbatim>\<open>this.nodes\<close> holds the DOM nodes of the block and its state. The model keeps what
  the state machine reads or changes after the nodes are created: the children of the
  container, of the input holder and of the preview anchor (\<^verbatim>\<open>linkContent\<close>), the class
  lists the tool toggles, the text of the input and the attributes of the preview. The
  wrapper, which only ever holds the container, and the fixed labels and host style classes
  given to the button and the input are left out. A value handed to a DOM attribute
  (\<^verbatim>\<open>textContent\<close>, \<^verbatim>\<open>href\<close>, the operand of \<^verbatim>\<open>'url(' + image.url + ')'\<close>) is recorded
  as the JavaScript value itself; the DOM stores its string conversion, which is the value
  itself for a string.
\<close>

datatype STATE = EDIT | VIEW

datatype container_child = InputHolder | LinkContent

datatype holder_child = Progress | Input | Button

datatype content_child = LinkImage | LinkTitle | LinkDescription | LinkText

record dom =
  container_children :: "container_child list"
  container_classes :: "string list"
  inputHolder_children :: "holder_child list"
  inputHolder_classes :: "string list"
  progress_classes :: "string list"
  input_textContent :: string
  linkContent_children :: "content_child list"
  linkContent_classes :: "string list"
  linkContent_href :: "jsval option"
  linkImage_backgroundImage :: "jsval option"
  linkTitle_textContent :: jsval
  linkDescription_textContent :: jsval
  linkText_textContent :: jsval

text \<open>The class names of \<^verbatim>\<open>get CSS()\<close> that the tool adds and removes.\<close>

definition CSS_container :: string where "CSS_container = ''link-tool''"
definition CSS_containerLoading :: string where "CSS_containerLoading = ''link-tool--loading''"
definition CSS_containerLoaded :: string where "CSS_containerLoaded = ''link-tool--loaded''"
definition CSS_containerEdit :: string where "CSS_containerEdit = ''link-tool--edit''"
definition CSS_containerView :: string where "CSS_containerView = ''link-tool--view''"
definition CSS_containerError :: string where "CSS_containerError = ''link-tool--error''"
definition CSS_inputHolder :: string where "CSS_inputHolder = ''link-tool__input-holder''"
definition CSS_inputError :: string where "CSS_inputError = ''link-tool__input-holder--error''"
definition CSS_linkContent :: string where "CSS_linkContent = ''link-tool__content''"
definition CSS_linkContentRendered :: string where
  "CSS_linkContentRendered = ''link-tool__content--rendered''"
definition CSS_progress :: string where "CSS_progress = ''link-tool__progress''"
definition CSS_progressLoading :: string where
  "CSS_progressLoading = ''link-tool__progress--loading''"
definition CSS_progressLoaded :: string where
  "CSS_progressLoaded = ''link-tool__progress--loaded''"

text \<open>\<^verbatim>\<open>classList.add\<close> and \<^verbatim>\<open>classList.remove\<close> on a token list without duplicates.\<close>

definition classList_add :: "string \<Rightarrow> string list \<Rightarrow> string list" where
  "classList_add c cs = (if c \<in> set cs then cs else cs @ [c])"

definition classList_remove :: "string \<Rightarrow> string list \<Rightarrow> string list" where
  "classList_remove c cs = removeAll c cs"

text \<open>
  \<^verbatim>\<open>parent.appendChild(x)\<close> moves \<open>x\<close> to the end of the parent's children;
  \<^verbatim>\<open>parent.removeChild(x)\<close> throws a NotFoundError when \<open>x\<close> is not a child;
  \<^verbatim>\<open>parent.insertBefore(x, ref)\<close> throws it when \<open>ref\<close> is not a child and puts \<open>x\<close>
  right before \<open>ref\<close> otherwise. Each modelled node has one possible parent only.
\<close>

definition appendChild :: "'a \<Rightarrow> 'a list \<Rightarrow> 'a list" where
  "appendChild x xs = removeAll x xs @ [x]"

definition removeChild :: "'a \<Rightarrow> 'a list \<Rightarrow> error + 'a list" where
  "removeChild x xs = (if x \<in> set xs then Inr (removeAll x xs) else Inl NotFoundError)"

definition insertBefore :: "'a \<Rightarrow> 'a \<Rightarrow> 'a list \<Rightarrow> error + 'a list" where
  "insertBefore x ref xs =
     (if ref \<in> set xs
      then (if x = ref then Inr xs
            else Inr (takeWhile (\<lambda>y. y \<noteq> ref) (removeAll x xs) @ [x]
                      @ dropWhile (\<lambda>y. y \<noteq> ref) (removeAll x xs)))
      else Inl NotFoundError)"

text \<open>
  The nodes as \<^verbatim>\<open>render\<close> creates them through \<^verbatim>\<open>make\<close>, \<^verbatim>\<open>makeInputHolder\<close> and
  \<^verbatim>\<open>prepareLinkPreview\<close>: the input holder holds the progress label, the input and the
  button; nothing is attached to the container or to the preview anchor yet.
\<close>

definition created_nodes :: dom where
  "created_nodes =
     \<lparr>container_children = [],
      container_classes = [CSS_container],
      inputHolder_children = [Progress, Input, Button],
      inputHolder_classes = [CSS_inputHolder],
      progress_classes = [CSS_progress],
      input_textContent = [],
      linkContent_children = [],
      linkContent_classes = [CSS_linkContent],
      linkContent_href = None,
      linkImage_backgroundImage = None,
      linkTitle_textContent = JStr [],
      linkDescription_textContent = JStr [],
      linkText_textContent = JStr []\<rparr>"

section \<open>The tool\<close>

text \<open>
  What the tool takes from outside: the host's translation function \<^verbatim>\<open>api.i18n.t\<close>
  and the platform's URL parser, as the function from the value given to \<^verbatim>\<open>new URL\<close>
  to the \<^verbatim>\<open>hostname\<close> of the result, \<open>None\<close> when the constructor throws.
\<close>

record externals =
  i18n_t :: "string \<Rightarrow> string"
  URL_hostname :: "jsval \<Rightarrow> string option"

record LinkToolConfig =
  endpoint :: jsval
  headers :: jsval

text \<open>One call of \<^verbatim>\<open>ajax.get\<close>.\<close>

record request =
  request_url :: jsval
  request_headers :: jsval
  request_data_url :: string

text \<open>
  The instance. \<open>nodes\<close> is \<open>None\<close> while the node fields are \<^verbatim>\<open>null\<close>, between the
  constructor and the first \<^verbatim>\<open>render\<close>. The effects on the outside are kept as logs:
  \<open>notifications\<close> for the calls of \<^verbatim>\<open>api.notifier.show\<close> (message and style),
  \<open>requests\<close> for the calls of \<^verbatim>\<open>ajax.get\<close>, and \<open>timers\<close> for the callbacks given to
  \<^verbatim>\<open>hideProgress().then\<close> that wait for the 500 ms timer, each with the \<^verbatim>\<open>metaData\<close> it
  closes over.
\<close>

record tool =
  ext :: externals
  readOnly :: bool
  config :: LinkToolConfig
  state :: STATE
  nodes :: "dom option"
  data :: LinkToolData
  notifications :: "(string \<times> string) list"
  requests :: "request list"
  timers :: "jsval list"

text \<open>Sequencing of calls that may throw.\<close>

definition and_then :: "error + 'a \<Rightarrow> ('a \<Rightarrow> error + 'b) \<Rightarrow> error + 'b" where
  "and_then m f = (case m of Inl e \<Rightarrow> Inl e | Inr x \<Rightarrow> f x)"

text \<open>
  A method body that works on the nodes: reading a node field that is still \<^verbatim>\<open>null\<close>
  throws a TypeError.
\<close>

definition with_nodes :: "(dom \<Rightarrow> error + dom) \<Rightarrow> tool \<Rightarrow> error + tool" where
  "with_nodes f t =
     (case nodes t of
        None \<Rightarrow> Inl TypeError
      | Some d \<Rightarrow> (case f d of Inl e \<Rightarrow> Inl e | Inr d' \<Rightarrow> Inr (t\<lparr>nodes := Some d'\<rparr>)))"

definition constructor :: "jsobject \<Rightarrow> jsobject \<Rightarrow> externals \<Rightarrow> bool \<Rightarrow> tool" where
  "constructor d cfg e ro =
     \<lparr>ext = e,
      readOnly = ro,
      config = \<lparr>endpoint = js_or (field cfg ''endpoint'') (JStr []),
                headers = js_or (field cfg ''headers'') (JObj [])\<rparr>,
      state = EDIT,
      nodes = None,
      data = set_data d initial_data,
      notifications = [],
      requests = [],
      timers = []\<rparr>"

definition save :: "tool \<Rightarrow> LinkToolData" where
  "save t = data t"

definition validate :: "tool \<Rightarrow> error + bool" where
  "validate t = validate_data (data t)"

section \<open>Mounting the two views\<close>

text \<open>
  \<^verbatim>\<open>showLinkPreview({ image, title, description })\<close>: the changes to the nodes. \<open>l\<close> is
  \<^verbatim>\<open>this.data.link\<close>. The label of the anchor is the host name of the link when
  \<^verbatim>\<open>new URL\<close> accepts it, and the link itself in the \<^verbatim>\<open>catch\<close> branch.
\<close>

definition showLinkPreview_nodes :: "externals \<Rightarrow> jsval \<Rightarrow> jsval \<Rightarrow> dom \<Rightarrow> dom" where
  "showLinkPreview_nodes e l m d =
     (let image = get_prop m ''image'';
          title = get_prop m ''title'';
          description = get_prop m ''description'';
          d1 = d\<lparr>container_children := appendChild LinkContent (container_children d),
                 container_classes :=
                   classList_remove CSS_containerEdit
                     (classList_add CSS_containerView (container_classes d))\<rparr>;
          d2 = (if truthy image \<and> truthy (get_prop image ''url'')
                then d1\<lparr>linkImage_backgroundImage := Some (get_prop image ''url''),
                        linkContent_children := appendChild LinkImage (linkContent_children d1)\<rparr>
                else d1);
          d3 = (if truthy title
                then d2\<lparr>linkTitle_textContent := title,
                        linkContent_children := appendChild LinkTitle (linkContent_children d2)\<rparr>
                else d2);
          d4 = (if truthy description
                then d3\<lparr>linkDescription_textContent := description,
                        linkContent_children :=
                          appendChild LinkDescription (linkContent_children d3)\<rparr>
                else d3);
          d5 = d4\<lparr>linkContent_classes :=
                     classList_add CSS_linkContentRendered (linkContent_classes d4),
                   linkContent_href := Some l,
                   linkContent_children := appendChild LinkText (linkContent_children d4)\<rparr>
      in d5\<lparr>linkText_textContent :=
               (case URL_hostname e l of Some h \<Rightarrow> JStr h | None \<Rightarrow> l)\<rparr>)"

text \<open>
  Destructuring the parameter throws a TypeError on \<^verbatim>\<open>null\<close> and \<^verbatim>\<open>undefined\<close>; the
  state is set to VIEW before the first node is touched.
\<close>

definition showLinkPreview :: "jsval \<Rightarrow> tool \<Rightarrow> error + tool" where
  "showLinkPreview m t =
     (if m = Undefined \<or> m = Null then Inl TypeError
      else with_nodes (\<lambda>d. Inr (showLinkPreview_nodes (ext t) (link (data t)) m d))
             (t\<lparr>state := VIEW\<rparr>))"

definition hideLinkPreview :: "tool \<Rightarrow> error + tool" where
  "hideLinkPreview t =
     with_nodes (\<lambda>d. and_then (removeChild LinkContent (container_children d))
                       (\<lambda>cs. Inr (d\<lparr>container_children := cs\<rparr>))) t"

definition showInputHolder :: "tool \<Rightarrow> error + tool" where
  "showInputHolder t =
     with_nodes
       (\<lambda>d. Inr (d\<lparr>container_children := appendChild InputHolder (container_children d),
                    container_classes :=
                      classList_add CSS_containerEdit
                        (classList_remove CSS_containerView
                          (classList_remove CSS_containerLoaded (container_classes d))),
                    progress_classes :=
                      classList_remove CSS_progressLoaded (progress_classes d)\<rparr>))
       (t\<lparr>state := EDIT\<rparr>)"

definition hideInputHolder :: "tool \<Rightarrow> error + tool" where
  "hideInputHolder t =
     with_nodes (\<lambda>d. and_then (removeChild InputHolder (container_children d))
                       (\<lambda>cs. Inr (d\<lparr>container_children := cs\<rparr>))) t"

definition showProgress :: "tool \<Rightarrow> error + tool" where
  "showProgress t =
     with_nodes
       (\<lambda>d. Inr (d\<lparr>container_classes := classList_add CSS_containerLoading (container_classes d),
                    progress_classes := classList_add CSS_progressLoading (progress_classes d)\<rparr>))
       t"

text \<open>
  \<^verbatim>\<open>hideProgress()\<close>: the executor of the promise runs at once; the promise resolves
  when the 500 ms timer fires (see \<open>timers\<close>).
\<close>

definition hideProgress :: "tool \<Rightarrow> error + tool" where
  "hideProgress t =
     with_nodes
       (\<lambda>d. Inr (d\<lparr>container_classes :=
                      classList_add CSS_containerLoaded
                        (classList_remove CSS_containerLoading (container_classes d)),
                    progress_classes :=
                      classList_add CSS_progressLoaded
                        (classList_remove CSS_progressLoading (progress_classes d))\<rparr>))
       t"

text \<open>\<^verbatim>\<open>applyErrorStyle()\<close>; \<^verbatim>\<open>progress.remove()\<close> takes the progress label out of its parent.\<close>

definition applyErrorStyle :: "tool \<Rightarrow> error + tool" where
  "applyErrorStyle t =
     with_nodes
       (\<lambda>d. Inr (d\<lparr>container_classes :=
                      classList_remove CSS_containerLoading
                        (classList_add CSS_containerError (container_classes d)),
                    inputHolder_classes := classList_add CSS_inputError (inputHolder_classes d),
                    inputHolder_children := removeAll Progress (inputHolder_children d)\<rparr>))
       t"

definition removeErrorStyle :: "tool \<Rightarrow> error + tool" where
  "removeErrorStyle t =
     with_nodes
       (\<lambda>d. and_then (insertBefore Progress Input (inputHolder_children d))
               (\<lambda>cs. Inr (d\<lparr>container_classes :=
                              classList_remove CSS_containerError (container_classes d),
                            inputHolder_classes :=
                              classList_remove CSS_inputError (inputHolder_classes d),
                            inputHolder_children := cs\<rparr>)))
       t"

text \<open>
  \<^verbatim>\<open>render()\<close> creates the nodes anew and mounts the preview when the stored \<^verbatim>\<open>meta\<close> has
  a key, the input holder otherwise.
\<close>

definition render :: "tool \<Rightarrow> error + tool" where
  "render t =
     (let t1 = t\<lparr>nodes := Some created_nodes\<rparr>
      in and_then (Object_keys_length (meta (data t1)))
           (\<lambda>n. if n \<noteq> 0
                 then and_then
                        (with_nodes
                           (\<lambda>d. Inr (d\<lparr>container_children :=
                                          appendChild LinkContent (container_children d)\<rparr>))
                           t1)
                        (showLinkPreview (meta (data t1)))
                 else showInputHolder t1))"

section \<open>The fetch coordinator\<close>

text \<open>
  \<^verbatim>\<open>fetchingFailed(errorMessage)\<close> shows the message through the host's notifier and
  applies the error style.
\<close>

definition fetchingFailed :: "string \<Rightarrow> tool \<Rightarrow> error + tool" where
  "fetchingFailed errorMessage t =
     applyErrorStyle (t\<lparr>notifications := notifications t @ [(errorMessage, ''error'')]\<rparr>)"

definition msg_fetch_failed :: string where
  "msg_fetch_failed = ''Couldn't fetch the link data''"

definition msg_no_link_data :: string where
  "msg_no_link_data = ''Couldn't get this link data, try the other one''"

definition msg_wrong_format :: string where
  "msg_wrong_format = ''Wrong response format from the server''"

text \<open>
  \<^verbatim>\<open>fetchLinkData(url)\<close> up to its \<^verbatim>\<open>await\<close>: the progress bar is shown, the link is
  stored through the setter and the request is sent.
\<close>

definition fetchLinkData :: "string \<Rightarrow> tool \<Rightarrow> error + tool" where
  "fetchLinkData url t =
     and_then (showProgress t)
       (\<lambda>t1. Inr (t1\<lparr>data := set_data [(''link'', JStr url)] (data t1),
                     requests := requests t1 @
                       [\<lparr>request_url = endpoint (config t1),
                         request_headers = headers (config t1),
                         request_data_url = url\<rparr>]\<rparr>))"

text \<open>
  \<^verbatim>\<open>onFetch(response)\<close>. On the success path the callback given to
  \<^verbatim>\<open>hideProgress().then\<close> is queued with its \<^verbatim>\<open>metaData\<close>.
\<close>

definition onFetch :: "jsval \<Rightarrow> tool \<Rightarrow> error + tool" where
  "onFetch response t =
     (if \<not> truthy response \<or> \<not> truthy (get_prop response ''success'')
      then fetchingFailed (i18n_t (ext t) msg_no_link_data) t
      else
        (let metaData = get_prop response ''meta'';
             l = js_or (get_prop response ''link'') (link (data t));
             t1 = t\<lparr>data := set_data [(''meta'', metaData), (''link'', l)] (data t)\<rparr>
         in if \<not> truthy metaData
            then fetchingFailed (i18n_t (ext t1) msg_wrong_format) t1
            else and_then (hideProgress t1)
                   (\<lambda>t2. Inr (t2\<lparr>timers := timers t2 @ [metaData]\<rparr>))))"

text \<open>
  The rest of \<^verbatim>\<open>fetchLinkData\<close>, run when the request settles: \<^verbatim>\<open>onFetch(body)\<close> when it
  resolved, the \<^verbatim>\<open>catch\<close> branch when it was rejected or \<^verbatim>\<open>onFetch\<close> threw.
\<close>

datatype ajax_result = Resolved jsval | Rejected

definition fetch_settled :: "ajax_result \<Rightarrow> tool \<Rightarrow> error + tool" where
  "fetch_settled r t =
     (case r of
        Rejected \<Rightarrow> fetchingFailed (i18n_t (ext t) msg_fetch_failed) t
      | Resolved body \<Rightarrow>
          (case onFetch body t of
             Inr t' \<Rightarrow> Inr t'
           | Inl e \<Rightarrow> fetchingFailed (i18n_t (ext t) msg_fetch_failed) t))"

text \<open>
  The 500 ms timer of the oldest pending \<^verbatim>\<open>hideProgress\<close> fires and its callback runs:
  \<^verbatim>\<open>hideInputHolder()\<close>, then \<^verbatim>\<open>showLinkPreview(metaData)\<close>.
\<close>

definition timer_fired :: "tool \<Rightarrow> error + tool" where
  "timer_fired t =
     (case timers t of
        [] \<Rightarrow> Inr t
      | metaData # rest \<Rightarrow>
          and_then (hideInputHolder (t\<lparr>timers := rest\<rparr>)) (showLinkPreview metaData))"

section \<open>Events\<close>

text \<open>
  The argument of \<^verbatim>\<open>startFetching\<close>: the default \<^verbatim>\<open>{}\<close>, a click, a paste with the
  clipboard's text, or a key press.
\<close>

datatype event = NoEvent | Click | Paste string | Keydown nat bool

definition startFetching :: "event \<Rightarrow> tool \<Rightarrow> error + tool" where
  "startFetching ev t =
     (case nodes t of
        None \<Rightarrow> Inl TypeError
      | Some d \<Rightarrow>
          (let url = (case ev of Paste text \<Rightarrow> text | _ \<Rightarrow> input_textContent d)
           in and_then (removeErrorStyle t) (fetchLinkData url)))"

definition changeState :: "STATE \<Rightarrow> tool \<Rightarrow> error + tool" where
  "changeState s t =
     (case s of
        EDIT \<Rightarrow> and_then (hideLinkPreview t) showInputHolder
      | VIEW \<Rightarrow> startFetching NoEvent t)"

text \<open>The entry of \<^verbatim>\<open>renderSettings()\<close>: its \<^verbatim>\<open>isActive\<close> flag and its \<^verbatim>\<open>onActivate\<close>.\<close>

definition renderSettings_isActive :: "tool \<Rightarrow> bool" where
  "renderSettings_isActive t = (state t = EDIT)"

definition onActivate :: "tool \<Rightarrow> error + tool" where
  "onActivate t = changeState (if state t = EDIT then VIEW else EDIT) t"

text \<open>
  \<^verbatim>\<open>selectLinkUrl(event)\<close> changes the selection of the window only, which is not part of
  the modelled state.
\<close>

definition selectLinkUrl :: "tool \<Rightarrow> error + tool" where
  "selectLinkUrl t = Inr t"

text \<open>
  The listeners of \<^verbatim>\<open>makeInputHolder\<close>, attached unless the block is read-only; the
  key codes are 13 for Enter and 65 for A. The user's edits of the input, possible unless
  the block is read-only, are \<open>type_text\<close>.
\<close>

definition button_click :: "tool \<Rightarrow> error + tool" where
  "button_click t = (if readOnly t \<or> nodes t = None then Inr t else startFetching Click t)"

definition input_paste :: "string \<Rightarrow> tool \<Rightarrow> error + tool" where
  "input_paste text t =
     (if readOnly t \<or> nodes t = None then Inr t else startFetching (Paste text) t)"

definition input_keydown :: "nat \<Rightarrow> bool \<Rightarrow> tool \<Rightarrow> error + tool" where
  "input_keydown keyCode cmdPressed t =
     (if readOnly t \<or> nodes t = None then Inr t
      else if keyCode = 13 then startFetching (Keydown keyCode cmdPressed) t
      else if keyCode = 65 then (if cmdPressed then selectLinkUrl t else Inr t)
      else Inr t)"

definition type_text :: "string \<Rightarrow> tool \<Rightarrow> tool" where
  "type_text s t =
     (case nodes t of
        None \<Rightarrow> t
      | Some d \<Rightarrow> if readOnly t then t else t\<lparr>nodes := Some (d\<lparr>input_textContent := s\<rparr>)\<rparr>)"

section \<open>Runs of the block\<close>

text \<open>
  One fetch with nothing in between: \<^verbatim>\<open>fetchLinkData(url)\<close> is called, the request settles,
  and the timer of \<^verbatim>\<open>hideProgress\<close> fires when the success path has set one.
\<close>

definition fetch_run :: "string \<Rightarrow> ajax_result \<Rightarrow> tool \<Rightarrow> error + tool" where
  "fetch_run url r t =
     and_then (fetchLinkData url t) (\<lambda>t1. and_then (fetch_settled r t1) timer_fired)"

text \<open>
  What can happen to a block, one event at a time: the host renders it or activates the
  settings entry, the user types, presses a key, clicks the button or pastes, a request
  settles, a timer fires. A run stops at the first exception.
\<close>

datatype action =
    Render
  | Activate
  | Type string
  | KeyDown nat bool
  | ClickButton
  | PasteText string
  | Settled ajax_result
  | TimerFired

fun step :: "action \<Rightarrow> tool \<Rightarrow> error + tool" where
  "step Render t = render t"
| "step Activate t = onActivate t"
| "step (Type s) t = Inr (type_text s t)"
| "step (KeyDown keyCode cmdPressed) t = input_keydown keyCode cmdPressed t"
| "step ClickButton t = button_click t"
| "step (PasteText text) t = input_paste text t"
| "step (Settled r) t = fetch_settled r t"
| "step TimerFired t = timer_fired t"

fun run :: "action list \<Rightarrow> tool \<Rightarrow> error + tool" where
  "run [] t = Inr t"
| "run (a # as) t = and_then (step a t) (run as)"

text \<open>What is observed at the end of a run.\<close>

definition final_state :: "error + tool \<Rightarrow> STATE option" where
  "final_state r = (case r of Inl e \<Rightarrow> None | Inr t \<Rightarrow> Some (state t))"

definition final_data :: "error + tool \<Rightarrow> LinkToolData option" where
  "final_data r = (case r of Inl e \<Rightarrow> None | Inr t \<Rightarrow> Some (data t))"

definition final_nodes :: "error + tool \<Rightarrow> dom option" where
  "final_nodes r = (case r of Inl e \<Rightarrow> None | Inr t \<Rightarrow> nodes t)"

definition final_container_classes :: "error + tool \<Rightarrow> string list option" where
  "final_container_classes r = map_option container_classes (final_nodes r)"

definition final_label :: "error + tool \<Rightarrow> jsval option" where
  "final_label r = map_option linkText_textContent (final_nodes r)"

definition final_request_urls :: "error + tool \<Rightarrow> string list option" where
  "final_request_urls r =
     (case r of Inl e \<Rightarrow> None | Inr t \<Rightarrow> Some (map request_data_url (requests t)))"

text \<open>A host for the concrete runs below: no translation, and a URL parser that knows one URL.\<close>

definition example_externals :: externals where
  "example_externals =
     \<lparr>i18n_t = (\<lambda>s. s),
      URL_hostname =
        (\<lambda>v. if v = JStr ''https://example.com/a/b'' then Some ''example.com'' else None)\<rparr>"

text \<open>
  The block in EDIT as \<^verbatim>\<open>render\<close> leaves it when the stored meta has no key, holding the
  data \<open>dt\<close>; and the block in VIEW as \<^verbatim>\<open>render\<close> leaves it for the data
  \<^verbatim>\<open>{link:"a", meta:{title:"t"}}\<close>.
\<close>

definition edit_nodes :: dom where
  "edit_nodes =
     created_nodes\<lparr>container_children := [InputHolder],
                   container_classes := [CSS_container, CSS_containerEdit]\<rparr>"

definition edit_block :: "LinkToolData \<Rightarrow> tool" where
  "edit_block dt =
     \<lparr>ext = example_externals,
      readOnly = False,
      config = \<lparr>endpoint = JStr [], headers = JObj []\<rparr>,
      state = EDIT,
      nodes = Some edit_nodes,
      data = dt,
      notifications = [],
      requests = [],
      timers = []\<rparr>"

definition view_nodes :: dom where
  "view_nodes =
     created_nodes\<lparr>container_children := [LinkContent],
                   container_classes := [CSS_container, CSS_containerView],
                   linkContent_children := [LinkTitle, LinkText],
                   linkContent_classes := [CSS_linkContent, CSS_linkContentRendered],
                   linkContent_href := Some (JStr ''a''),
                   linkTitle_textContent := JStr ''t'',
                   linkText_textContent := JStr ''a''\<rparr>"

definition view_block :: tool where
  "view_block =
     (edit_block \<lparr>link = JStr ''a'', meta = JObj [(''title'', JStr ''t'')]\<rparr>)
       \<lparr>state := VIEW, nodes := Some view_nodes\<rparr>"

text \<open>
  Three response bodies: \<^verbatim>\<open>{success:1, meta:{title:"T"}}\<close>, \<^verbatim>\<open>{success:0}\<close> and
  \<^verbatim>\<open>{success:1}\<close>.
\<close>

definition body_ok :: jsval where
  "body_ok = JObj [(''success'', JNum 1), (''meta'', JObj [(''title'', JStr ''T'')])]"

definition body_failure :: jsval where
  "body_failure = JObj [(''success'', JNum 0)]"

definition body_no_meta :: jsval where
  "body_no_meta = JObj [(''success'', JNum 1)]"

section \<open>Well-mounted blocks\<close>

text \<open>
  The condition that every run keeps: the stored meta is truthy, and once the nodes exist
  the input is in the input holder, the input holder is attached in EDIT and the preview
  is attached in VIEW.
\<close>

definition mounted :: "tool \<Rightarrow> bool" where
  "mounted t \<longleftrightarrow>
     truthy (meta (data t)) \<and>
     (case nodes t of
        None \<Rightarrow> True
      | Some d \<Rightarrow>
          Input \<in> set (inputHolder_children d) \<and>
          (if state t = EDIT then InputHolder \<in> set (container_children d)
           else LinkContent \<in> set (container_children d)))"

text \<open>
  A second condition that every run keeps: in EDIT the preview is not attached to the
  container.
\<close>

definition preview_detached_in_edit :: "tool \<Rightarrow> bool" where
  "preview_detached_in_edit t \<longleftrightarrow>
     (case nodes t of
        None \<Rightarrow> True
      | Some d \<Rightarrow> state t = VIEW \<or> LinkContent \<notin> set (container_children d))"

section \<open>Basic facts\<close>

lemmas CSS_defs =
  CSS_container_def CSS_containerLoading_def CSS_containerLoaded_def CSS_containerEdit_def
  CSS_containerView_def CSS_containerError_def CSS_inputHolder_def CSS_inputError_def
  CSS_linkContent_def CSS_linkContentRendered_def CSS_progress_def CSS_progressLoading_def
  CSS_progressLoaded_def

lemmas list_ops =
  classList_add_def classList_remove_def appendChild_def removeChild_def insertBefore_def

lemmas node_ops =
  with_nodes_def and_then_def showProgress_def hideProgress_def applyErrorStyle_def
  removeErrorStyle_def showInputHolder_def hideInputHolder_def hideLinkPreview_def
  showLinkPreview_def

lemmas run_defs =
  fetch_run_def fetchLinkData_def fetch_settled_def onFetch_def fetchingFailed_def
  timer_fired_def startFetching_def changeState_def onActivate_def button_click_def
  input_paste_def input_keydown_def selectLinkUrl_def type_text_def render_def constructor_def
  created_nodes_def showLinkPreview_nodes_def set_data_def js_or_def field_def
  initial_data_def example_externals_def final_state_def final_data_def final_nodes_def
  final_container_classes_def final_label_def final_request_urls_def msg_fetch_failed_def msg_no_link_data_def
  msg_wrong_format_def Let_def

lemmas example_defs =
  edit_nodes_def edit_block_def view_nodes_def view_block_def body_ok_def
  body_failure_def body_no_meta_def

lemma truthy_get_prop: "truthy (get_prop v k) \<Longrightarrow> truthy v"
  by (cases v) simp_all

text \<open>On a rendered block the start of a fetch and the failure path do not throw.\<close>

lemma fetchLinkData_rendered:
  "nodes t = Some d \<Longrightarrow>
   fetchLinkData u t =
     Inr (t\<lparr>nodes := Some (d\<lparr>container_classes :=
                                classList_add CSS_containerLoading (container_classes d),
                              progress_classes :=
                                classList_add CSS_progressLoading (progress_classes d)\<rparr>),
            data := \<lparr>link = (if u \<noteq> [] then JStr u else link (data t)),
                     meta = meta (data t)\<rparr>,
            requests := requests t @
              [\<lparr>request_url = endpoint (config t),
                request_headers = headers (config t),
                request_data_url = u\<rparr>]\<rparr>)"
  by (simp add: fetchLinkData_def node_ops set_data_def js_or_def field_def)

lemma fetchingFailed_rendered:
  "nodes t = Some d \<Longrightarrow>
   fetchingFailed msg t =
     Inr (t\<lparr>notifications := notifications t @ [(msg, ''error'')],
            nodes := Some (d\<lparr>container_classes :=
                                classList_remove CSS_containerLoading
                                  (classList_add CSS_containerError (container_classes d)),
                              inputHolder_classes :=
                                classList_add CSS_inputError (inputHolder_classes d),
                              inputHolder_children :=
                                removeAll Progress (inputHolder_children d)\<rparr>)\<rparr>)"
  by (simp add: fetchingFailed_def node_ops)

text \<open>The example blocks are what \<^verbatim>\<open>render\<close> produces.\<close>

lemma render_gives_edit_block:
  "render (constructor [(''link'', JStr ''a'')] [] example_externals False)
     = Inr (edit_block \<lparr>link = JStr ''a'', meta = JObj []\<rparr>)"
  by (simp add: run_defs node_ops list_ops CSS_defs example_defs)

lemma render_gives_view_block:
  "render (constructor [(''link'', JStr ''a''), (''meta'', JObj [(''title'', JStr ''t'')])]
             [] example_externals False) = Inr view_block"
  by (simp add: run_defs node_ops list_ops CSS_defs example_defs)

lemma trim_empty_iff: "trim s = [] \<longleftrightarrow> (\<forall>c \<in> set s. is_white_space c)"
proof
  assume "trim s = []"
  then have rest: "\<forall>c \<in> set (dropWhile is_white_space s). is_white_space c"
    by (simp add: trim_def)
  have "dropWhile is_white_space s = []"
  proof (rule ccontr)
    assume nonempty: "dropWhile is_white_space s \<noteq> []"
    then have "\<not> is_white_space (hd (dropWhile is_white_space s))"
      by (rule hd_dropWhile)
    moreover have "hd (dropWhile is_white_space s) \<in> set (dropWhile is_white_space s)"
      using nonempty by simp
    ultimately show False using rest by blast
  qed
  then show "\<forall>c \<in> set s. is_white_space c"
    by simp
next
  assume "\<forall>c \<in> set s. is_white_space c"
  then have "dropWhile is_white_space s = []"
    by simp
  then show "trim s = []"
    by (simp add: trim_def del: dropWhile_eq_Nil_conv)
qed

lemma set_data_keeps_truthy_link: "truthy (link d) \<Longrightarrow> truthy (link (set_data inp d))"
  by (simp add: set_data_def js_or_def)

lemma fold_set_data_keeps_truthy_link:
  "truthy (link d) \<Longrightarrow> truthy (link (fold set_data inps d))"
  by (induction inps arbitrary: d) (simp_all add: set_data_keeps_truthy_link)

section \<open>Reachable blocks\<close>

text \<open>
  Every block reached by a run from a constructed block is well mounted, so the
  conditions on the mounted subtree in the theorems below hold on every block that the
  host and the user can produce.
\<close>

lemma mounted_iff:
  "mounted t \<longleftrightarrow>
     truthy (meta (data t)) \<and>
     (\<forall>d. nodes t = Some d \<longrightarrow>
        Input \<in> set (inputHolder_children d) \<and>
        (state t = EDIT \<longrightarrow> InputHolder \<in> set (container_children d)) \<and>
        (state t = VIEW \<longrightarrow> LinkContent \<in> set (container_children d)))"
  by (cases "state t") (auto simp: mounted_def split: option.splits)

lemma with_nodes_Inr:
  "with_nodes f t = Inr t' \<longleftrightarrow> (\<exists>d d'. nodes t = Some d \<and> f d = Inr d' \<and> t' = t\<lparr>nodes := Some d'\<rparr>)"
  by (auto simp: with_nodes_def split: option.splits sum.splits)

lemma and_then_Inr: "and_then m f = Inr y \<longleftrightarrow> (\<exists>x. m = Inr x \<and> f x = Inr y)"
  by (auto simp: and_then_def split: sum.splits)

lemma mountedI:
  "truthy (meta (data t)) \<Longrightarrow> nodes t = Some d \<Longrightarrow> Input \<in> set (inputHolder_children d) \<Longrightarrow>
   (state t = EDIT \<Longrightarrow> InputHolder \<in> set (container_children d)) \<Longrightarrow>
   (state t = VIEW \<Longrightarrow> LinkContent \<in> set (container_children d)) \<Longrightarrow> mounted t"
  by (simp add: mounted_iff)

lemma mounted_nodes:
  "mounted t \<Longrightarrow> nodes t = Some d \<Longrightarrow> Input \<in> set (inputHolder_children d)"
  by (simp add: mounted_iff)

lemma mounted_meta: "mounted t \<Longrightarrow> truthy (meta (data t))"
  by (simp add: mounted_iff)

lemma showInputHolder_mounted:
  assumes "showInputHolder t = Inr t'" and "nodes t = Some d"
    and "Input \<in> set (inputHolder_children d)" and "truthy (meta (data t))"
  shows "mounted t'"
proof -
  from assms(1,2) obtain d' where t': "nodes t' = Some d'" "state t' = EDIT" "data t' = data t"
    "inputHolder_children d' = inputHolder_children d" "InputHolder \<in> set (container_children d')"
    by (auto simp: showInputHolder_def with_nodes_Inr list_ops)
  show ?thesis
    by (rule mountedI [OF _ t'(1)]) (simp_all add: t' assms)
qed

lemma showLinkPreview_nodes_keeps:
  "inputHolder_children (showLinkPreview_nodes e l m d) = inputHolder_children d"
  "LinkContent \<in> set (container_children (showLinkPreview_nodes e l m d))"
  by (simp_all add: showLinkPreview_nodes_def Let_def appendChild_def)

lemma showLinkPreview_mounted:
  assumes "showLinkPreview m t = Inr t'" and "nodes t = Some d"
    and "Input \<in> set (inputHolder_children d)" and "truthy (meta (data t))"
  shows "mounted t'"
proof -
  from assms(1,2) obtain d' where t': "nodes t' = Some d'" "state t' = VIEW" "data t' = data t"
    "inputHolder_children d' = inputHolder_children d" "LinkContent \<in> set (container_children d')"
    by (auto simp: showLinkPreview_def with_nodes_Inr showLinkPreview_nodes_keeps split: if_splits)
  show ?thesis
    by (rule mountedI [OF _ t'(1)]) (simp_all add: t' assms)
qed


lemma render_cases:
  assumes "render t = Inr t'"
  shows "showLinkPreview (meta (data t))
           (t\<lparr>nodes := Some (created_nodes\<lparr>container_children := [LinkContent]\<rparr>)\<rparr>) = Inr t'
         \<or> showInputHolder (t\<lparr>nodes := Some created_nodes\<rparr>) = Inr t'"
  using assms
  by (auto simp: render_def Let_def and_then_def with_nodes_def created_nodes_def
      appendChild_def split: sum.splits if_splits)

lemma render_mounted:
  assumes "render t = Inr t'" and "truthy (meta (data t))"
  shows "mounted t'"
  using render_cases [OF assms(1)]
proof
  assume "showLinkPreview (meta (data t))
           (t\<lparr>nodes := Some (created_nodes\<lparr>container_children := [LinkContent]\<rparr>)\<rparr>) = Inr t'"
  then show ?thesis
    by (rule showLinkPreview_mounted
          [where d = "created_nodes\<lparr>container_children := [LinkContent]\<rparr>"])
       (simp_all add: created_nodes_def assms(2))
next
  assume "showInputHolder (t\<lparr>nodes := Some created_nodes\<rparr>) = Inr t'"
  then show ?thesis
    by (rule showInputHolder_mounted [where d = created_nodes])
       (simp_all add: created_nodes_def assms(2))
qed

lemma set_takeWhile_dropWhile:
  "set (takeWhile P zs @ x # dropWhile P zs) = insert x (set zs)"
proof -
  have "set (takeWhile P zs) \<union> set (dropWhile P zs) = set zs"
    by (metis set_append takeWhile_dropWhile_id)
  then show ?thesis
    by auto
qed

lemma insertBefore_keeps:
  assumes "insertBefore x r xs = Inr ys" and "y \<in> set xs"
  shows "y \<in> set ys"
proof (cases "x = r")
  case True
  with assms show ?thesis
    by (simp add: insertBefore_def split: if_splits)
next
  case False
  with assms(1) have "ys = takeWhile (\<lambda>y. y \<noteq> r) (removeAll x xs) @ x
                          # dropWhile (\<lambda>y. y \<noteq> r) (removeAll x xs)"
    by (auto simp: insertBefore_def split: if_splits)
  then have "set ys = insert x (set (removeAll x xs))"
    by (simp only: set_takeWhile_dropWhile)
  with assms(2) show ?thesis
    by auto
qed


lemma fetchingFailed_mounted:
  assumes "fetchingFailed msg t = Inr t'" and "mounted t"
  shows "mounted t'"
proof -
  from assms(1) obtain d where d: "nodes t = Some d"
    by (auto simp: fetchingFailed_def applyErrorStyle_def with_nodes_Inr)
  from assms(1) d obtain d' where t': "nodes t' = Some d'" "state t' = state t"
    "data t' = data t" "container_children d' = container_children d"
    "inputHolder_children d' = removeAll Progress (inputHolder_children d)"
    by (auto simp: fetchingFailed_rendered)
  from assms(2) d have m: "truthy (meta (data t))" "Input \<in> set (inputHolder_children d)"
    "state t = EDIT \<Longrightarrow> InputHolder \<in> set (container_children d)"
    "state t = VIEW \<Longrightarrow> LinkContent \<in> set (container_children d)"
    by (auto simp: mounted_iff)
  show ?thesis
    by (rule mountedI [OF _ t'(1)]) (simp_all add: t' m)
qed

lemma fetchLinkData_mounted:
  assumes "fetchLinkData u t = Inr t'" and "mounted t"
  shows "mounted t'"
proof -
  from assms(1) obtain d where d: "nodes t = Some d"
    by (auto simp: fetchLinkData_def showProgress_def and_then_Inr with_nodes_Inr)
  from assms(1) d obtain d' where t': "nodes t' = Some d'" "state t' = state t"
    "meta (data t') = meta (data t)" "container_children d' = container_children d"
    "inputHolder_children d' = inputHolder_children d"
    by (auto simp: fetchLinkData_rendered)
  from assms(2) d have m: "truthy (meta (data t))" "Input \<in> set (inputHolder_children d)"
    "state t = EDIT \<Longrightarrow> InputHolder \<in> set (container_children d)"
    "state t = VIEW \<Longrightarrow> LinkContent \<in> set (container_children d)"
    by (auto simp: mounted_iff)
  show ?thesis
    by (rule mountedI [OF _ t'(1)]) (simp_all add: t' m)
qed

lemma removeErrorStyle_mounted:
  assumes "removeErrorStyle t = Inr t'" and "mounted t"
  shows "mounted t'"
proof -
  from assms(1) obtain d cs where d: "nodes t = Some d"
    and cs: "insertBefore Progress Input (inputHolder_children d) = Inr cs"
    and t': "t' = t\<lparr>nodes := Some (d\<lparr>container_classes :=
                              classList_remove CSS_containerError (container_classes d),
                            inputHolder_classes :=
                              classList_remove CSS_inputError (inputHolder_classes d),
                            inputHolder_children := cs\<rparr>)\<rparr>"
    by (auto simp: removeErrorStyle_def with_nodes_Inr and_then_Inr)
  from assms(2) d have m: "truthy (meta (data t))" "Input \<in> set (inputHolder_children d)"
    "state t = EDIT \<Longrightarrow> InputHolder \<in> set (container_children d)"
    "state t = VIEW \<Longrightarrow> LinkContent \<in> set (container_children d)"
    by (auto simp: mounted_iff)
  have "Input \<in> set cs"
    using cs m(2) by (rule insertBefore_keeps)
  then show ?thesis
    unfolding t' by (intro mountedI [where d = "d\<lparr>container_classes :=
                              classList_remove CSS_containerError (container_classes d),
                            inputHolder_classes :=
                              classList_remove CSS_inputError (inputHolder_classes d),
                            inputHolder_children := cs\<rparr>"]) (simp_all add: m)
qed

lemma startFetching_mounted:
  assumes "startFetching ev t = Inr t'" and "mounted t"
  shows "mounted t'"
proof -
  from assms(1) obtain u t1 where "removeErrorStyle t = Inr t1" "fetchLinkData u t1 = Inr t'"
    by (auto simp: startFetching_def Let_def and_then_Inr split: option.splits)
  then show ?thesis
    using assms(2) by (blast intro: removeErrorStyle_mounted fetchLinkData_mounted)
qed


lemma onFetch_mounted:
  assumes "onFetch r t = Inr t'" and "mounted t"
  shows "mounted t'"
proof (cases "\<not> truthy r \<or> \<not> truthy (get_prop r ''success'')")
  case True
  with assms(1) have "fetchingFailed (i18n_t (ext t) msg_no_link_data) t = Inr t'"
    by (simp add: onFetch_def)
  then show ?thesis
    using assms(2) by (rule fetchingFailed_mounted)
next
  case False
  define t1 where
    "t1 = t\<lparr>data := set_data [(''meta'', get_prop r ''meta''),
                               (''link'', js_or (get_prop r ''link'') (link (data t)))]
                      (data t)\<rparr>"
  have "truthy (meta (data t1))"
    using assms(2) by (simp add: t1_def set_data_def js_or_def field_def mounted_iff)
  then have m1: "mounted t1"
    using assms(2) by (simp add: mounted_iff t1_def)
  show ?thesis
  proof (cases "truthy (get_prop r ''meta'')")
    case False
    with \<open>\<not> (\<not> truthy r \<or> \<not> truthy (get_prop r ''success''))\<close> assms(1)
    have "fetchingFailed (i18n_t (ext t1) msg_wrong_format) t1 = Inr t'"
      by (simp add: onFetch_def Let_def t1_def)
    then show ?thesis
      using m1 by (rule fetchingFailed_mounted)
  next
    case True
    with \<open>\<not> (\<not> truthy r \<or> \<not> truthy (get_prop r ''success''))\<close> assms(1)
    obtain t2 where h: "hideProgress t1 = Inr t2"
      and t': "t' = t2\<lparr>timers := timers t2 @ [get_prop r ''meta'']\<rparr>"
      by (auto simp: onFetch_def Let_def t1_def and_then_Inr)
    from h obtain d where d: "nodes t1 = Some d"
      by (auto simp: hideProgress_def with_nodes_Inr)
    from h d obtain d' where t2: "nodes t' = Some d'" "state t' = state t1"
      "data t' = data t1" "container_children d' = container_children d"
      "inputHolder_children d' = inputHolder_children d"
      by (auto simp: hideProgress_def with_nodes_Inr t')
    from m1 d have m: "truthy (meta (data t1))" "Input \<in> set (inputHolder_children d)"
      "state t1 = EDIT \<Longrightarrow> InputHolder \<in> set (container_children d)"
      "state t1 = VIEW \<Longrightarrow> LinkContent \<in> set (container_children d)"
      by (auto simp: mounted_iff)
    show ?thesis
      by (rule mountedI [OF _ t2(1)]) (simp_all add: t2 m)
  qed
qed

lemma fetch_settled_mounted:
  assumes "fetch_settled r t = Inr t'" and "mounted t"
  shows "mounted t'"
  using assms
  by (auto simp: fetch_settled_def split: ajax_result.splits sum.splits
      intro: fetchingFailed_mounted onFetch_mounted)

lemma removeChild_frame:
  assumes "with_nodes (\<lambda>d. and_then (removeChild x (container_children d))
                              (\<lambda>cs. Inr (d\<lparr>container_children := cs\<rparr>))) t = Inr t1"
    and "mounted t"
  shows "\<exists>d1. nodes t1 = Some d1 \<and> Input \<in> set (inputHolder_children d1)
               \<and> truthy (meta (data t1))"
  using assms
  by (auto simp: with_nodes_Inr and_then_Inr mounted_iff)

lemma timer_fired_mounted:
  assumes "timer_fired t = Inr t'" and "mounted t"
  shows "mounted t'"
proof (cases "timers t")
  case Nil
  with assms show ?thesis
    by (simp add: timer_fired_def)
next
  case (Cons m rest)
  with assms(1) obtain t1 where h: "hideInputHolder (t\<lparr>timers := rest\<rparr>) = Inr t1"
    and s: "showLinkPreview m t1 = Inr t'"
    by (auto simp: timer_fired_def and_then_Inr)
  have "mounted (t\<lparr>timers := rest\<rparr>)"
    using assms(2) by (simp add: mounted_iff)
  with h obtain d1 where "nodes t1 = Some d1" "Input \<in> set (inputHolder_children d1)"
    "truthy (meta (data t1))"
    unfolding hideInputHolder_def by (blast dest: removeChild_frame)
  with s show ?thesis
    by (rule showLinkPreview_mounted)
qed

lemma onActivate_mounted:
  assumes "onActivate t = Inr t'" and "mounted t"
  shows "mounted t'"
proof (cases "state t")
  case EDIT
  with assms(1) have "startFetching NoEvent t = Inr t'"
    by (simp add: onActivate_def changeState_def)
  then show ?thesis
    using assms(2) by (rule startFetching_mounted)
next
  case VIEW
  with assms(1) obtain t1 where h: "hideLinkPreview t = Inr t1"
    and s: "showInputHolder t1 = Inr t'"
    by (auto simp: onActivate_def changeState_def and_then_Inr)
  from h assms(2) obtain d1 where "nodes t1 = Some d1" "Input \<in> set (inputHolder_children d1)"
    "truthy (meta (data t1))"
    unfolding hideLinkPreview_def by (blast dest: removeChild_frame)
  with s show ?thesis
    by (rule showInputHolder_mounted)
qed

lemma step_mounted:
  assumes "step a t = Inr t'" and "mounted t"
  shows "mounted t'"
proof (cases a)
  case Render
  with assms show ?thesis
    by (auto intro: render_mounted mounted_meta)
next
  case Activate
  with assms show ?thesis
    by (auto intro: onActivate_mounted)
next
  case (Type s)
  with assms show ?thesis
    by (auto simp: type_text_def mounted_iff split: option.splits if_splits)
next
  case (KeyDown k c)
  with assms show ?thesis
    by (auto simp: input_keydown_def selectLinkUrl_def split: if_splits
        intro: startFetching_mounted)
next
  case ClickButton
  with assms show ?thesis
    by (auto simp: button_click_def split: if_splits intro: startFetching_mounted)
next
  case (PasteText s)
  with assms show ?thesis
    by (auto simp: input_paste_def split: if_splits intro: startFetching_mounted)
next
  case (Settled r)
  with assms show ?thesis
    by (auto intro: fetch_settled_mounted)
next
  case TimerFired
  with assms show ?thesis
    by (auto intro: timer_fired_mounted)
qed

lemma run_mounted: "run as t = Inr t' \<Longrightarrow> mounted t \<Longrightarrow> mounted t'"
  by (induction as arbitrary: t) (auto simp: and_then_Inr dest: step_mounted)

lemma constructor_mounted: "mounted (constructor d cfg e ro)"
  by (simp add: mounted_iff constructor_def set_data_def js_or_def initial_data_def)

text \<open>The stored data changes through the setter only.\<close>

lemma node_ops_keep_data:
  "showProgress t = Inr t' \<Longrightarrow> data t' = data t"
  "hideProgress t = Inr t' \<Longrightarrow> data t' = data t"
  "applyErrorStyle t = Inr t' \<Longrightarrow> data t' = data t"
  "removeErrorStyle t = Inr t' \<Longrightarrow> data t' = data t"
  "showInputHolder t = Inr t' \<Longrightarrow> data t' = data t"
  "hideInputHolder t = Inr t' \<Longrightarrow> data t' = data t"
  "hideLinkPreview t = Inr t' \<Longrightarrow> data t' = data t"
  "showLinkPreview m t = Inr t' \<Longrightarrow> data t' = data t"
  by (auto simp: showProgress_def hideProgress_def applyErrorStyle_def removeErrorStyle_def
      showInputHolder_def hideInputHolder_def hideLinkPreview_def showLinkPreview_def
      with_nodes_Inr split: if_splits)

lemma fetchingFailed_keeps_data: "fetchingFailed msg t = Inr t' \<Longrightarrow> data t' = data t"
  by (auto simp: fetchingFailed_def dest: node_ops_keep_data(3))

lemma render_keeps_data: "render t = Inr t' \<Longrightarrow> data t' = data t"
  by (auto dest!: render_cases dest: node_ops_keep_data)

lemma fetchLinkData_sets_data:
  "fetchLinkData u t = Inr t' \<Longrightarrow> data t' = set_data [(''link'', JStr u)] (data t)"
  by (auto simp: fetchLinkData_def and_then_Inr dest: node_ops_keep_data(1))

lemma startFetching_sets_data:
  "startFetching ev t = Inr t' \<Longrightarrow> \<exists>inp. data t' = set_data inp (data t)"
  by (auto simp: startFetching_def Let_def and_then_Inr split: option.splits
      dest!: fetchLinkData_sets_data node_ops_keep_data(4))

lemma onFetch_sets_data:
  "onFetch r t = Inr t' \<Longrightarrow> data t' = data t \<or> (\<exists>inp. data t' = set_data inp (data t))"
  by (auto simp: onFetch_def Let_def and_then_Inr split: if_splits
      dest!: fetchingFailed_keeps_data node_ops_keep_data(2))

lemma step_sets_data:
  assumes "step a t = Inr t'"
  shows "data t' = data t \<or> (\<exists>inp. data t' = set_data inp (data t))"
proof (cases a)
  case Render
  with assms show ?thesis
    by (auto dest: render_keeps_data)
next
  case Activate
  show ?thesis
  proof (cases "state t")
    case EDIT
    with Activate assms have "startFetching NoEvent t = Inr t'"
      by (simp add: onActivate_def changeState_def)
    then show ?thesis
      by (blast dest: startFetching_sets_data)
  next
    case VIEW
    with Activate assms obtain t1 where "hideLinkPreview t = Inr t1"
      and "showInputHolder t1 = Inr t'"
      by (auto simp: onActivate_def changeState_def and_then_Inr)
    then have "data t' = data t"
      by (simp add: node_ops_keep_data)
    then show ?thesis ..
  qed
next
  case (Type s)
  with assms show ?thesis
    by (auto simp: type_text_def split: option.splits if_splits)
next
  case (KeyDown k c)
  with assms show ?thesis
    by (auto simp: input_keydown_def selectLinkUrl_def split: if_splits
        dest: startFetching_sets_data)
next
  case ClickButton
  with assms show ?thesis
    by (auto simp: button_click_def split: if_splits dest: startFetching_sets_data)
next
  case (PasteText s)
  with assms show ?thesis
    by (auto simp: input_paste_def split: if_splits dest: startFetching_sets_data)
next
  case (Settled r)
  with assms show ?thesis
    by (auto simp: fetch_settled_def split: ajax_result.splits sum.splits
        dest: fetchingFailed_keeps_data onFetch_sets_data)
next
  case TimerFired
  show ?thesis
  proof (cases "timers t")
    case Nil
    with TimerFired assms show ?thesis
      by (simp add: timer_fired_def)
  next
    case (Cons m rest)
    with TimerFired assms obtain t1 where "hideInputHolder (t\<lparr>timers := rest\<rparr>) = Inr t1"
      and "showLinkPreview m t1 = Inr t'"
      by (auto simp: timer_fired_def and_then_Inr)
    then have "data t' = data (t\<lparr>timers := rest\<rparr>)"
      by (simp add: node_ops_keep_data)
    then show ?thesis
      by simp
  qed
qed

lemma run_sets_data: "run as t = Inr t' \<Longrightarrow> \<exists>inps. data t' = fold set_data inps (data t)"
proof (induction as arbitrary: t)
  case Nil
  then have "data t' = fold set_data [] (data t)"
    by simp
  then show ?case ..
next
  case (Cons a as)
  then obtain t1 where s: "step a t = Inr t1" and r: "run as t1 = Inr t'"
    by (auto simp: and_then_Inr)
  from Cons.IH [OF r] obtain inps where i: "data t' = fold set_data inps (data t1)" ..
  from step_sets_data [OF s] show ?case
  proof
    assume "data t1 = data t"
    with i show ?thesis by auto
  next
    assume "\<exists>inp. data t1 = set_data inp (data t)"
    then obtain inp where "data t1 = set_data inp (data t)" ..
    with i have "data t' = fold set_data (inp # inps) (data t)"
      by simp
    then show ?thesis ..
  qed
qed

lemma run_keeps_truthy_link:
  "run as t = Inr t' \<Longrightarrow> truthy (link (data t)) \<Longrightarrow> truthy (link (data t'))"
  by (auto dest!: run_sets_data intro: fold_set_data_keeps_truthy_link)

text \<open>In every reachable block in EDIT the preview is detached.\<close>

lemma preview_detached_in_edit_iff:
  "preview_detached_in_edit t \<longleftrightarrow>
     (\<forall>d. nodes t = Some d \<longrightarrow> state t = EDIT \<longrightarrow> LinkContent \<notin> set (container_children d))"
  by (cases "state t") (auto simp: preview_detached_in_edit_def split: option.splits)

lemma showLinkPreview_state: "showLinkPreview m t = Inr t' \<Longrightarrow> state t' = VIEW"
  by (auto simp: showLinkPreview_def with_nodes_Inr split: if_splits)

lemma showInputHolder_children:
  "showInputHolder t = Inr t' \<Longrightarrow> nodes t = Some d \<Longrightarrow> nodes t' = Some d' \<Longrightarrow>
   LinkContent \<notin> set (container_children d) \<Longrightarrow> LinkContent \<notin> set (container_children d')"
  by (auto simp: showInputHolder_def with_nodes_Inr appendChild_def)

lemma hideLinkPreview_children:
  "hideLinkPreview t = Inr t' \<Longrightarrow> \<exists>d'. nodes t' = Some d' \<and> LinkContent \<notin> set (container_children d')"
  by (auto simp: hideLinkPreview_def with_nodes_Inr and_then_Inr removeChild_def split: if_splits)

lemma startFetching_frame:
  assumes "startFetching ev t = Inr t'"
  shows "state t' = state t
         \<and> (\<exists>d d'. nodes t = Some d \<and> nodes t' = Some d'
                \<and> container_children d' = container_children d)"
  using assms
  by (auto simp: startFetching_def Let_def and_then_Inr removeErrorStyle_def fetchLinkData_def
      showProgress_def with_nodes_Inr split: option.splits)

lemma fetchingFailed_frame:
  assumes "fetchingFailed msg t = Inr t'"
  shows "state t' = state t
         \<and> (\<exists>d d'. nodes t = Some d \<and> nodes t' = Some d'
                \<and> container_children d' = container_children d)"
  using assms
  by (auto simp: fetchingFailed_def applyErrorStyle_def with_nodes_Inr)

lemma onFetch_frame:
  assumes "onFetch r t = Inr t'"
  shows "state t' = state t
         \<and> (\<exists>d d'. nodes t = Some d \<and> nodes t' = Some d'
                \<and> container_children d' = container_children d)"
  using assms
  by (auto simp: onFetch_def Let_def and_then_Inr hideProgress_def fetchingFailed_def
      applyErrorStyle_def with_nodes_Inr split: if_splits)

lemma frame_keeps_preview_detached:
  assumes "state t' = state t
           \<and> (\<exists>d d'. nodes t = Some d \<and> nodes t' = Some d'
                  \<and> container_children d' = container_children d)"
    and "preview_detached_in_edit t"
  shows "preview_detached_in_edit t'"
  using assms by (auto simp: preview_detached_in_edit_iff)

lemma in_view_preview_detached: "state t = VIEW \<Longrightarrow> preview_detached_in_edit t"
  by (simp add: preview_detached_in_edit_iff)

lemma render_preview_detached:
  assumes "render t = Inr t'"
  shows "preview_detached_in_edit t'"
  using render_cases [OF assms]
proof
  assume "showLinkPreview (meta (data t))
           (t\<lparr>nodes := Some (created_nodes\<lparr>container_children := [LinkContent]\<rparr>)\<rparr>) = Inr t'"
  then show ?thesis
    by (blast intro: in_view_preview_detached dest: showLinkPreview_state)
next
  assume "showInputHolder (t\<lparr>nodes := Some created_nodes\<rparr>) = Inr t'"
  then show ?thesis
    by (auto simp: preview_detached_in_edit_iff created_nodes_def
        dest: showInputHolder_children [where d = created_nodes])
qed

lemma onActivate_preview_detached:
  assumes "onActivate t = Inr t'" and "preview_detached_in_edit t"
  shows "preview_detached_in_edit t'"
proof (cases "state t")
  case EDIT
  with assms(1) have "startFetching NoEvent t = Inr t'"
    by (simp add: onActivate_def changeState_def)
  then show ?thesis
    using assms(2) by (blast intro: frame_keeps_preview_detached dest: startFetching_frame)
next
  case VIEW
  with assms(1) obtain t1 where h: "hideLinkPreview t = Inr t1"
    and s: "showInputHolder t1 = Inr t'"
    by (auto simp: onActivate_def changeState_def and_then_Inr)
  from h obtain d1 where "nodes t1 = Some d1" "LinkContent \<notin> set (container_children d1)"
    by (blast dest: hideLinkPreview_children)
  with s show ?thesis
    by (auto simp: preview_detached_in_edit_iff dest: showInputHolder_children)
qed

lemma timer_fired_preview_detached:
  assumes "timer_fired t = Inr t'" and "preview_detached_in_edit t"
  shows "preview_detached_in_edit t'"
proof (cases "timers t")
  case Nil
  with assms show ?thesis
    by (simp add: timer_fired_def)
next
  case (Cons m rest)
  with assms(1) obtain t1 where "showLinkPreview m t1 = Inr t'"
    by (auto simp: timer_fired_def and_then_Inr)
  then show ?thesis
    by (blast intro: in_view_preview_detached dest: showLinkPreview_state)
qed

lemma fetch_settled_preview_detached:
  assumes "fetch_settled r t = Inr t'" and "preview_detached_in_edit t"
  shows "preview_detached_in_edit t'"
  using assms
  by (auto simp: fetch_settled_def split: ajax_result.splits sum.splits
      intro: frame_keeps_preview_detached dest: fetchingFailed_frame onFetch_frame)

lemma step_preview_detached:
  assumes "step a t = Inr t'" and "preview_detached_in_edit t"
  shows "preview_detached_in_edit t'"
proof (cases a)
  case Render
  with assms show ?thesis
    by (auto intro: render_preview_detached)
next
  case Activate
  with assms show ?thesis
    by (auto intro: onActivate_preview_detached)
next
  case (Type s)
  with assms show ?thesis
    by (auto simp: type_text_def preview_detached_in_edit_iff split: option.splits if_splits)
next
  case (KeyDown k c)
  with assms show ?thesis
    by (auto simp: input_keydown_def selectLinkUrl_def split: if_splits
        intro: frame_keeps_preview_detached dest: startFetching_frame)
next
  case ClickButton
  with assms show ?thesis
    by (auto simp: button_click_def split: if_splits
        intro: frame_keeps_preview_detached dest: startFetching_frame)
next
  case (PasteText s)
  with assms show ?thesis
    by (auto simp: input_paste_def split: if_splits
        intro: frame_keeps_preview_detached dest: startFetching_frame)
next
  case (Settled r)
  with assms show ?thesis
    by (auto intro: fetch_settled_preview_detached)
next
  case TimerFired
  with assms show ?thesis
    by (auto intro: timer_fired_preview_detached)
qed

lemma run_preview_detached:
  "run as t = Inr t' \<Longrightarrow> preview_detached_in_edit t \<Longrightarrow> preview_detached_in_edit t'"
  by (induction as arbitrary: t) (auto simp: and_then_Inr dest: step_preview_detached)

lemma constructor_preview_detached: "preview_detached_in_edit (constructor d cfg e ro)"
  by (simp add: preview_detached_in_edit_def constructor_def)

section \<open>The data model and validation\<close>

text \<open>
  Claim C5. For every stored data value whose link is a string, \<^verbatim>\<open>validate\<close> returns true
  if and only if the link, trimmed of white space, is non-empty, that is, if and only if
  the link has a character that is not white space. It returns false for the links
  \<^verbatim>\<open>""\<close> and \<^verbatim>\<open>"  "\<close> and true for \<^verbatim>\<open>"x"\<close>, whatever the meta.
\<close>

theorem validate_iff_trimmed_link_nonempty:
  "(link (data t) = JStr s \<longrightarrow>
      validate t = Inr (trim s \<noteq> [])
      \<and> (trim s \<noteq> [] \<longleftrightarrow> (\<exists>c. c \<in> set s \<and> \<not> is_white_space c)))
   \<and> validate (t\<lparr>data := \<lparr>link = JStr [], meta = m\<rparr>\<rparr>) = Inr False
   \<and> validate (t\<lparr>data := \<lparr>link = JStr ''  '', meta = m\<rparr>\<rparr>) = Inr False
   \<and> validate (t\<lparr>data := \<lparr>link = JStr ''x'', meta = m\<rparr>\<rparr>) = Inr True"
proof -
  have "trim s \<noteq> [] \<longleftrightarrow> (\<exists>c. c \<in> set s \<and> \<not> is_white_space c)"
    using trim_empty_iff [of s] by blast
  moreover have "trim [] = []" "trim ''  '' = []" "trim ''x'' = ''x''"
    by (simp_all add: trim_def is_white_space_def)
  ultimately show ?thesis
    by (simp add: validate_def validate_data_def)
qed

theorem validate_iff_trimmed_link_nonempty_witness:
  "validate (constructor [(''link'', JStr '' e.com '')] [] example_externals False) = Inr True
   \<and> validate (constructor [(''link'', JStr ''x''), (''meta'', JObj [(''title'', JStr ''  '')])]
                 [] example_externals False) = Inr True"
proof -
  have l1: "link (data (constructor [(''link'', JStr '' e.com '')] [] example_externals False))
            = JStr '' e.com ''"
    by (simp add: constructor_def set_data_def js_or_def field_def initial_data_def)
  have l2: "link (data (constructor
               [(''link'', JStr ''x''), (''meta'', JObj [(''title'', JStr ''  '')])]
               [] example_externals False)) = JStr ''x''"
    by (simp add: constructor_def set_data_def js_or_def field_def initial_data_def)
  have "trim '' e.com '' \<noteq> []" "trim ''x'' \<noteq> []"
    by (simp_all add: trim_def is_white_space_def)
  then show ?thesis
    using l1 l2
      validate_iff_trimmed_link_nonempty
        [of "constructor [(''link'', JStr '' e.com '')] [] example_externals False"
            "'' e.com ''"]
      validate_iff_trimmed_link_nonempty
        [of "constructor [(''link'', JStr ''x''), (''meta'', JObj [(''title'', JStr ''  '')])]
               [] example_externals False" "''x''"]
    by simp
qed

text \<open>
  Claim C6. The data setter merges: a field that the input omits keeps its stored value,
  for the link and for the meta alike. Setting \<^verbatim>\<open>{link:"a"}\<close> and then
  \<^verbatim>\<open>{meta:{title:"t"}}\<close> gives \<^verbatim>\<open>{link:"a", meta:{title:"t"}}\<close> from every prior data
  model.
\<close>

theorem set_data_merges:
  "(map_of inp ''link'' = None \<longrightarrow> link (set_data inp d) = link d)
   \<and> (map_of inp ''meta'' = None \<longrightarrow> meta (set_data inp d) = meta d)
   \<and> set_data [(''meta'', JObj [(''title'', JStr ''t'')])] (set_data [(''link'', JStr ''a'')] d)
       = \<lparr>link = JStr ''a'', meta = JObj [(''title'', JStr ''t'')]\<rparr>"
  by (simp add: set_data_def js_or_def field_def)

theorem set_data_merges_witness:
  "link (set_data [(''meta'', JObj [(''title'', JStr ''t'')])]
           \<lparr>link = JStr ''a'', meta = JObj []\<rparr>) = JStr ''a''
   \<and> meta (set_data [(''link'', JStr ''b'')]
           \<lparr>link = JStr ''a'', meta = JObj [(''title'', JStr ''t'')]\<rparr>)
       = JObj [(''title'', JStr ''t'')]"
  using set_data_merges [of "[(''meta'', JObj [(''title'', JStr ''t'')])]"
                            "\<lparr>link = JStr ''a'', meta = JObj []\<rparr>"]
        set_data_merges [of "[(''link'', JStr ''b'')]"
                            "\<lparr>link = JStr ''a'', meta = JObj [(''title'', JStr ''t'')]\<rparr>"]
  by simp

text \<open>
  Claim C10. When the stored link is a non-empty string, a setter call whose link is falsy
  (the empty string, or absent) leaves the stored link as it is, so no setter call and no
  sequence of setter calls makes the stored link empty again; the link update at the start
  of a fetch of the empty text keeps the stored link too, and so does every run of the
  block, which changes the data through the setter only.
\<close>

theorem stored_link_never_emptied:
  assumes "link d = JStr s" and "s \<noteq> []"
  shows "(\<not> truthy (field inp ''link'') \<longrightarrow> link (set_data inp d) = link d)
         \<and> link (set_data inp d) \<noteq> JStr []
         \<and> link (fold set_data inps d) \<noteq> JStr []
         \<and> (data t = d \<and> nodes t \<noteq> None \<longrightarrow>
              (\<exists>t'. fetchLinkData [] t = Inr t' \<and> link (data t') = link d))
         \<and> (data t = d \<and> run as t = Inr t'' \<longrightarrow> link (data t'') \<noteq> JStr [])"
proof -
  have tr: "truthy (link d)"
    using assms by simp
  have a: "\<not> truthy (field inp ''link'') \<longrightarrow> link (set_data inp d) = link d"
    by (simp add: set_data_def js_or_def)
  have "truthy (link (set_data inp d))"
    using tr by (rule set_data_keeps_truthy_link)
  then have b: "link (set_data inp d) \<noteq> JStr []"
    by auto
  have "truthy (link (fold set_data inps d))"
    using tr by (rule fold_set_data_keeps_truthy_link)
  then have c: "link (fold set_data inps d) \<noteq> JStr []"
    by auto
  have e: "data t = d \<and> nodes t \<noteq> None \<longrightarrow>
             (\<exists>t'. fetchLinkData [] t = Inr t' \<and> link (data t') = link d)"
    by (auto simp: fetchLinkData_def showProgress_def with_nodes_def and_then_def
          set_data_def js_or_def field_def)
  have "data t = d \<and> run as t = Inr t'' \<longrightarrow> truthy (link (data t''))"
    using tr by (auto dest: run_keeps_truthy_link)
  then have f: "data t = d \<and> run as t = Inr t'' \<longrightarrow> link (data t'') \<noteq> JStr []"
    by auto
  from a b c e f show ?thesis
    by blast
qed

theorem stored_link_never_emptied_witness:
  "link (set_data [(''link'', JStr [])] \<lparr>link = JStr ''a'', meta = JObj []\<rparr>) = JStr ''a''
   \<and> link (fold set_data [[(''link'', JStr [])], [(''link'', Null)], []]
             \<lparr>link = JStr ''a'', meta = JObj []\<rparr>) \<noteq> JStr []
   \<and> map_option link
         (final_data (fetchLinkData [] (edit_block \<lparr>link = JStr ''a'', meta = JObj []\<rparr>)))
       = Some (JStr ''a'')
   \<and> map_option link
         (final_data (run [KeyDown 13 False, Settled (Resolved body_failure)]
                        (edit_block \<lparr>link = JStr ''a'', meta = JObj []\<rparr>)))
       \<noteq> Some (JStr [])"
proof -
  let ?d = "\<lparr>link = JStr ''a'', meta = JObj []\<rparr>"
  have h: "link ?d = JStr ''a''" "''a'' \<noteq> []"
    by simp_all
  have n: "data (edit_block ?d) = ?d \<and> nodes (edit_block ?d) \<noteq> None"
    by (simp add: edit_block_def)
  obtain t'' where r: "run [KeyDown 13 False, Settled (Resolved body_failure)] (edit_block ?d)
                         = Inr t''"
    by (simp add: run_defs node_ops list_ops CSS_defs example_defs)
  from stored_link_never_emptied
         [OF h, of "[(''link'', JStr [])]" "[[(''link'', JStr [])], [(''link'', Null)], []]"
            "edit_block ?d" "[KeyDown 13 False, Settled (Resolved body_failure)]" t'']
  show ?thesis
    using n r by (auto simp: field_def final_data_def)
qed

section \<open>The render and state controller\<close>





text \<open>
  Claim C8. On a rendered block in VIEW, activating the settings entry puts the block in
  EDIT and leaves the data model as it was. In EDIT it runs the fetch coordinator on the
  text of the input element, whatever the stored link: the request that is sent carries
  that text. The preview is attached in every reachable block in VIEW, and the input is in
  the input holder of every reachable block (\<open>run_mounted\<close>).
\<close>

theorem settings_toggle:
  assumes "nodes t = Some d"
  shows "(state t = VIEW \<and> LinkContent \<in> set (container_children d) \<longrightarrow>
            (\<exists>t'. onActivate t = Inr t' \<and> state t' = EDIT \<and> data t' = data t))
         \<and> (state t = EDIT \<longrightarrow>
              onActivate t = and_then (removeErrorStyle t) (fetchLinkData (input_textContent d))
              \<and> (Input \<in> set (inputHolder_children d) \<longrightarrow>
                   (\<exists>t'. onActivate t = Inr t'
                      \<and> requests t' = requests t @
                           [\<lparr>request_url = endpoint (config t),
                             request_headers = headers (config t),
                             request_data_url = input_textContent d\<rparr>])))"
  using assms
  by (simp add: onActivate_def changeState_def startFetching_def node_ops list_ops
      fetchLinkData_def Let_def)

theorem settings_toggle_witness:
  "final_state (onActivate view_block) = Some EDIT
   \<and> final_data (onActivate view_block) = Some (data view_block)
   \<and> onActivate (type_text ''b'' (edit_block \<lparr>link = JStr ''a'', meta = JObj []\<rparr>))
       = fetchLinkData ''b'' (type_text ''b'' (edit_block \<lparr>link = JStr ''a'', meta = JObj []\<rparr>))
   \<and> final_request_urls
         (onActivate (type_text ''b'' (edit_block \<lparr>link = JStr ''a'', meta = JObj []\<rparr>)))
       = Some [''b'']"
proof -
  let ?t = "type_text ''b'' (edit_block \<lparr>link = JStr ''a'', meta = JObj []\<rparr>)"
  have v: "nodes view_block = Some view_nodes"
    and "state view_block = VIEW \<and> LinkContent \<in> set (container_children view_nodes)"
    by (simp_all add: example_defs)
  with settings_toggle [OF v] obtain t1 where
    "onActivate view_block = Inr t1" "state t1 = EDIT" "data t1 = data view_block"
    by blast
  then have a: "final_state (onActivate view_block) = Some EDIT"
    "final_data (onActivate view_block) = Some (data view_block)"
    by (simp_all add: final_state_def final_data_def)
  have e: "nodes ?t = Some (edit_nodes\<lparr>input_textContent := ''b''\<rparr>)"
    and s: "state ?t = EDIT"
    and i: "Input \<in> set (inputHolder_children (edit_nodes\<lparr>input_textContent := ''b''\<rparr>))"
    and q: "requests ?t = []"
    by (simp_all add: example_defs type_text_def created_nodes_def)
  have r: "removeErrorStyle ?t = Inr ?t"
    by (simp add: example_defs type_text_def created_nodes_def node_ops list_ops CSS_defs)
  from settings_toggle [OF e] s i obtain t2 where
    c: "onActivate ?t = and_then (removeErrorStyle ?t) (fetchLinkData ''b'')"
    and t2: "onActivate ?t = Inr t2" "map request_data_url (requests t2) = [''b'']"
    by (auto simp: q)
  from c have b: "onActivate ?t = fetchLinkData ''b'' ?t"
    by (simp add: r and_then_def)
  from t2 have "final_request_urls (onActivate ?t) = Some [''b'']"
    by (simp add: final_request_urls_def)
  with a b show ?thesis
    by simp
qed




section \<open>Outcomes of a fetch\<close>

text \<open>
  Claim C1, as stated, at the empty URL. A block loaded with the link \<^verbatim>\<open>"a"\<close> is rendered
  in EDIT with an empty input; Enter is pressed, so a fetch of \<^verbatim>\<open>""\<close> starts; the backend
  answers \<^verbatim>\<open>{success:1, meta:{title:"T"}}\<close> and the timer fires. The block is in VIEW
  and the stored link is still \<^verbatim>\<open>"a"\<close>, not the fetched \<^verbatim>\<open>""\<close>.
\<close>

theorem fetch_success_link_counterexample:
  "final_state (run [Render, KeyDown 13 False, Settled (Resolved body_ok), TimerFired]
       (constructor [(''link'', JStr ''a'')] [] example_externals False)) = Some VIEW
   \<and> final_data (run [Render, KeyDown 13 False, Settled (Resolved body_ok), TimerFired]
       (constructor [(''link'', JStr ''a'')] [] example_externals False))
     = Some \<lparr>link = JStr ''a'', meta = JObj [(''title'', JStr ''T'')]\<rparr>
   \<and> final_data (run [Render, KeyDown 13 False, Settled (Resolved body_ok), TimerFired]
       (constructor [(''link'', JStr ''a'')] [] example_externals False))
     \<noteq> Some \<lparr>link = JStr [], meta = JObj [(''title'', JStr ''T'')]\<rparr>"
  by (simp add: run_defs node_ops list_ops CSS_defs example_defs)

text \<open>
  Claim C1, amended. On a rendered block with the input holder mounted and no timer
  pending, a fetch of \<open>u\<close> answered by a body with a truthy \<^verbatim>\<open>success\<close> and a truthy
  \<^verbatim>\<open>meta\<close> (any object is one) ends in VIEW with the preview mounted in place of the
  input holder; the stored meta is the response's meta, and the stored link is the
  response's link when that is truthy, else \<open>u\<close> when \<open>u\<close> is not empty, else the link
  stored before. The input holder is mounted in every reachable block in EDIT
  (\<open>run_mounted\<close>).
\<close>

theorem fetch_success_sets_data_and_view:
  assumes "nodes t = Some d" and "InputHolder \<in> set (container_children d)"
    and "timers t = []"
    and "truthy (get_prop body ''success'')" and "truthy (get_prop body ''meta'')"
  shows "\<exists>t' d'. fetch_run u (Resolved body) t = Inr t'
           \<and> state t' = VIEW
           \<and> nodes t' = Some d'
           \<and> LinkContent \<in> set (container_children d')
           \<and> InputHolder \<notin> set (container_children d')
           \<and> meta (data t') = get_prop body ''meta''
           \<and> link (data t') =
               (if truthy (get_prop body ''link'') then get_prop body ''link''
                else if u \<noteq> [] then JStr u else link (data t))"
proof -
  have "get_prop body ''meta'' \<noteq> Undefined" and "get_prop body ''meta'' \<noteq> Null"
    using assms(5) by auto
  moreover have "truthy body"
    using assms(4) by (rule truthy_get_prop)
  ultimately show ?thesis
    using assms
    by (simp add: fetch_run_def fetchLinkData_rendered and_then_def fetch_settled_def
        onFetch_def Let_def set_data_def js_or_def field_def hideProgress_def with_nodes_def
        timer_fired_def hideInputHolder_def removeChild_def showLinkPreview_def
        showLinkPreview_nodes_def appendChild_def)
qed

theorem fetch_success_sets_data_and_view_witness:
  "final_state (fetch_run ''http://e.com'' (Resolved body_ok)
      (edit_block \<lparr>link = JStr [], meta = JObj []\<rparr>)) = Some VIEW
   \<and> final_data (fetch_run ''http://e.com'' (Resolved body_ok)
      (edit_block \<lparr>link = JStr [], meta = JObj []\<rparr>))
     = Some \<lparr>link = JStr ''http://e.com'', meta = JObj [(''title'', JStr ''T'')]\<rparr>"
proof -
  have "nodes (edit_block \<lparr>link = JStr [], meta = JObj []\<rparr>) = Some edit_nodes"
    and "InputHolder \<in> set (container_children edit_nodes)"
    and "timers (edit_block \<lparr>link = JStr [], meta = JObj []\<rparr>) = []"
    and "truthy (get_prop body_ok ''success'')"
    and "truthy (get_prop body_ok ''meta'')"
    by (simp_all add: example_defs field_def)
  from fetch_success_sets_data_and_view [OF this, of "''http://e.com''"]
  obtain t' where
    "fetch_run ''http://e.com'' (Resolved body_ok) (edit_block \<lparr>link = JStr [], meta = JObj []\<rparr>)
       = Inr t'"
    "state t' = VIEW"
    "meta (data t') = JObj [(''title'', JStr ''T'')]"
    "link (data t') = JStr ''http://e.com''"
    by (auto simp: example_defs field_def)
  then show ?thesis
    by (simp add: final_state_def final_data_def)
qed

text \<open>
  Claim C2, as stated, at the empty URL. The same block, with the stored link \<^verbatim>\<open>"a"\<close>
  and an empty input: Enter starts a fetch of \<^verbatim>\<open>""\<close>, the backend answers
  \<^verbatim>\<open>{success:0}\<close>. The stored link is still \<^verbatim>\<open>"a"\<close>, not the attempted \<^verbatim>\<open>""\<close>.
\<close>

theorem fetch_failure_link_counterexample:
  "final_state (run [Render, KeyDown 13 False, Settled (Resolved body_failure)]
       (constructor [(''link'', JStr ''a'')] [] example_externals False)) = Some EDIT
   \<and> final_data (run [Render, KeyDown 13 False, Settled (Resolved body_failure)]
       (constructor [(''link'', JStr ''a'')] [] example_externals False))
     = Some \<lparr>link = JStr ''a'', meta = JObj []\<rparr>
   \<and> final_data (run [Render, KeyDown 13 False, Settled (Resolved body_failure)]
       (constructor [(''link'', JStr ''a'')] [] example_externals False))
     \<noteq> Some \<lparr>link = JStr [], meta = JObj []\<rparr>"
  by (simp add: run_defs node_ops list_ops CSS_defs example_defs)

text \<open>
  Claim C2, amended. On a rendered block in EDIT, a fetch of \<open>u\<close> answered by a body whose
  \<^verbatim>\<open>success\<close> is falsy leaves the block in EDIT with the error classes on the container
  and on the input holder, and the failure is notified; the stored link is \<open>u\<close> when \<open>u\<close>
  is not empty and the link stored before when it is, and the stored meta is unchanged.
\<close>

theorem fetch_failure_keeps_edit_and_meta:
  assumes "nodes t = Some d" and "state t = EDIT"
    and "\<not> truthy (get_prop body ''success'')"
  shows "\<exists>t' d'. and_then (fetchLinkData u t) (fetch_settled (Resolved body)) = Inr t'
           \<and> state t' = EDIT
           \<and> nodes t' = Some d'
           \<and> CSS_containerError \<in> set (container_classes d')
           \<and> CSS_inputError \<in> set (inputHolder_classes d')
           \<and> link (data t') = (if u \<noteq> [] then JStr u else link (data t))
           \<and> meta (data t') = meta (data t)
           \<and> notifications t' = notifications t @ [(i18n_t (ext t) msg_no_link_data, ''error'')]"
  using assms
  by (simp add: fetchLinkData_rendered and_then_def fetch_settled_def onFetch_def
      fetchingFailed_rendered list_ops CSS_defs)

theorem fetch_failure_keeps_edit_and_meta_witness:
  "final_state (and_then (fetchLinkData ''http://e.com'' (edit_block \<lparr>link = JStr ''a'', meta = JObj []\<rparr>))
                  (fetch_settled (Resolved body_failure))) = Some EDIT
   \<and> final_data (and_then (fetchLinkData ''http://e.com'' (edit_block \<lparr>link = JStr ''a'', meta = JObj []\<rparr>))
                  (fetch_settled (Resolved body_failure)))
      = Some \<lparr>link = JStr ''http://e.com'', meta = JObj []\<rparr>"
proof -
  have "nodes (edit_block \<lparr>link = JStr ''a'', meta = JObj []\<rparr>) = Some edit_nodes"
    and "state (edit_block \<lparr>link = JStr ''a'', meta = JObj []\<rparr>) = EDIT"
    and "\<not> truthy (get_prop body_failure ''success'')"
    by (simp_all add: example_defs field_def)
  from fetch_failure_keeps_edit_and_meta [OF this, of "''http://e.com''"]
  obtain t' where
    "and_then (fetchLinkData ''http://e.com'' (edit_block \<lparr>link = JStr ''a'', meta = JObj []\<rparr>))
       (fetch_settled (Resolved body_failure)) = Inr t'"
    "state t' = EDIT"
    "link (data t') = JStr ''http://e.com''"
    "meta (data t') = JObj []"
    by (auto simp: example_defs)
  then show ?thesis
    by (simp add: final_state_def final_data_def)
qed

text \<open>
  Claim C3, as stated, on a block that has a meta. A block loaded with
  \<^verbatim>\<open>{link:"a", meta:{title:"t"}}\<close> is rendered in VIEW and switched to EDIT by the
  settings entry; \<^verbatim>\<open>"b"\<close> is typed and Enter pressed; the backend answers
  \<^verbatim>\<open>{success:1}\<close>. The block stays in EDIT and the stored meta is still
  \<^verbatim>\<open>{title:"t"}\<close>, not the empty object.
\<close>

theorem malformed_success_meta_counterexample:
  "final_state (run [Render, Activate, Type ''b'', KeyDown 13 False, Settled (Resolved body_no_meta)]
       (constructor [(''link'', JStr ''a''), (''meta'', JObj [(''title'', JStr ''t'')])]
          [] example_externals False)) = Some EDIT
   \<and> final_data (run [Render, Activate, Type ''b'', KeyDown 13 False, Settled (Resolved body_no_meta)]
       (constructor [(''link'', JStr ''a''), (''meta'', JObj [(''title'', JStr ''t'')])]
          [] example_externals False))
     = Some \<lparr>link = JStr ''b'', meta = JObj [(''title'', JStr ''t'')]\<rparr>
   \<and> JObj [(''title'', JStr ''t'')] \<noteq> JObj []"
  by (simp add: run_defs node_ops list_ops CSS_defs example_defs)

text \<open>
  Claim C3, amended. On a rendered block in EDIT, a fetch answered by a body with a truthy
  \<^verbatim>\<open>success\<close> and an absent or falsy \<^verbatim>\<open>meta\<close> takes the failure path with the message
  "Wrong response format from the server", the block stays in EDIT, and the stored meta
  is the one from before the fetch: the empty object when it was empty before.
\<close>

theorem malformed_success_keeps_prior_meta:
  assumes "nodes t = Some d" and "state t = EDIT"
    and "truthy (get_prop body ''success'')" and "\<not> truthy (get_prop body ''meta'')"
  shows "\<exists>t' d'. and_then (fetchLinkData u t) (fetch_settled (Resolved body)) = Inr t'
           \<and> state t' = EDIT
           \<and> nodes t' = Some d'
           \<and> CSS_containerError \<in> set (container_classes d')
           \<and> notifications t' = notifications t @ [(i18n_t (ext t) msg_wrong_format, ''error'')]
           \<and> meta (data t') = meta (data t)
           \<and> (meta (data t) = JObj [] \<longrightarrow> meta (data t') = JObj [])"
proof -
  have "truthy body"
    using assms(3) by (rule truthy_get_prop)
  then show ?thesis
    using assms
    by (simp add: fetchLinkData_rendered and_then_def fetch_settled_def onFetch_def
        fetchingFailed_rendered list_ops CSS_defs Let_def set_data_def js_or_def field_def)
qed

theorem malformed_success_keeps_prior_meta_witness:
  "final_state (and_then (fetchLinkData ''http://e.com'' (edit_block \<lparr>link = JStr [], meta = JObj []\<rparr>))
                  (fetch_settled (Resolved body_no_meta))) = Some EDIT
   \<and> map_option meta
        (final_data (and_then (fetchLinkData ''http://e.com'' (edit_block \<lparr>link = JStr [], meta = JObj []\<rparr>))
                  (fetch_settled (Resolved body_no_meta))))
      = Some (JObj [])"
proof -
  have "nodes (edit_block \<lparr>link = JStr [], meta = JObj []\<rparr>) = Some edit_nodes"
    and "state (edit_block \<lparr>link = JStr [], meta = JObj []\<rparr>) = EDIT"
    and "truthy (get_prop body_no_meta ''success'')"
    and "\<not> truthy (get_prop body_no_meta ''meta'')"
    by (simp_all add: example_defs field_def)
  from malformed_success_keeps_prior_meta [OF this, of "''http://e.com''"]
  obtain t' where
    "and_then (fetchLinkData ''http://e.com'' (edit_block \<lparr>link = JStr [], meta = JObj []\<rparr>))
       (fetch_settled (Resolved body_no_meta)) = Inr t'"
    "state t' = EDIT"
    "meta (data t') = JObj []"
    by (auto simp: example_defs)
  then show ?thesis
    by (simp add: final_state_def final_data_def)
qed

end
